theory Spec2Isabelle
  imports Main "HOL-Library.Sublist"
begin

section \<open>Data model (main.go, lines 59-70)\<close>

text \<open>
  A Go \<open>error\<close> is represented by its message; \<open>fmt.Errorf("... %w", err)\<close> is the
  concatenation of the format text with the message of the wrapped error. A Go \<open>string\<close>
  is a sequence of bytes, as \<open>string\<close> is here.

  \<open>Column.Default\<close> is a \<open>*string\<close>: \<open>None\<close> is the nil pointer. Both structs have a
  field \<open>Name\<close>; the one of \<open>Table\<close> is called \<open>TableName\<close> here.
\<close>

record Column =
  Name :: string
  DataType :: string
  IsNullable :: string
  Default :: "string option"

record Table =
  TableName :: string
  Columns :: "Column list"
  PrimaryKey :: "string list"

section \<open>String helpers (main.go, lines 321-334)\<close>

text \<open>
  \<open>contains\<close> is \<open>strings.Contains\<close>: some position of \<open>s\<close> starts with \<open>substr\<close>.
  \<open>strings.HasPrefix\<close> is \<^const>\<open>prefix\<close>.
\<close>

fun contains :: "string \<Rightarrow> string \<Rightarrow> bool" where
  "contains [] substr = (substr = [])"
| "contains (c # s) substr = (prefix substr (c # s) \<or> contains s substr)"

text \<open>
  \<open>joinStrings\<close>: the empty slice gives the empty string; otherwise the loop from index 1
  appends the separator and the next element to the result, which starts as \<open>strs[0]\<close>.
\<close>

fun joinLoop :: "string \<Rightarrow> string list \<Rightarrow> string \<Rightarrow> string" where
  "joinLoop res [] sep = res"
| "joinLoop res (s # strs) sep = joinLoop (res @ sep @ s) strs sep"

fun joinStrings :: "string list \<Rightarrow> string \<Rightarrow> string" where
  "joinStrings [] sep = []"
| "joinStrings (s # strs) sep = joinLoop s strs sep"

section \<open>The sanitizer (introspectSchema, lines 142-176)\<close>

text \<open>
  One row of the column query, as \<open>Scan\<close> stores it: \<open>attname\<close>, the formatted type, the
  \<open>attnotnull\<close> flag and the default expression (NULL is the nil pointer).
\<close>

type_synonym column_row = "string \<times> string \<times> bool \<times> string option"

text \<open>Lines 143-154: the scanned values and the nullability text.\<close>

fun columnOfRow :: "column_row \<Rightarrow> Column" where
  "columnOfRow (attname, typ, notNull, dflt) =
     \<lparr>Name = attname, DataType = typ,
      IsNullable = (if notNull then ''NO'' else ''YES''), Default = dflt\<rparr>"

text \<open>Lines 157-160: defaults that refer to the private schema or cast to a private type.\<close>

definition dropPrivateDefault :: "Column \<Rightarrow> Column" where
  "dropPrivateDefault c =
     (case Default c of
        None \<Rightarrow> c
      | Some d \<Rightarrow>
          if contains d ''xata_private'' \<or> contains d ''::xata_''
          then c\<lparr>Default := None\<rparr> else c)"

text \<open>Lines 162-173: sequence defaults of integer and bigint columns.\<close>

definition handleSequences :: "Column \<Rightarrow> Column" where
  "handleSequences c =
     (case Default c of
        None \<Rightarrow> c
      | Some d \<Rightarrow>
          if contains d ''nextval('' then
            (if prefix ''integer'' (DataType c) \<or> DataType c = ''int4''
             then c\<lparr>DataType := ''SERIAL'', Default := None\<rparr>
             else if prefix ''bigint'' (DataType c) \<or> DataType c = ''int8''
             then c\<lparr>DataType := ''BIGSERIAL'', Default := None\<rparr>
             else c)
          else c)"

definition sanitize :: "Column \<Rightarrow> Column" where
  "sanitize c = handleSequences (dropPrivateDefault c)"

text \<open>
  The row loop of lines 142-176: a failing \<open>Scan\<close> returns its error; otherwise the
  sanitized column is appended to \<open>t.Columns\<close>. A row is \<open>Inl\<close> the error of its
  \<open>Scan\<close> or \<open>Inr\<close> the scanned values.
\<close>

fun scanColumns :: "(string + column_row) list \<Rightarrow> Column list \<Rightarrow> string + Column list" where
  "scanColumns [] cols = Inr cols"
| "scanColumns (Inl err # rows) cols = Inl err"
| "scanColumns (Inr r # rows) cols = scanColumns rows (cols @ [sanitize (columnOfRow r)])"

section \<open>Connections, cursors and the progress bar\<close>

text \<open>
  The two connections are outside the program. What the program does to them is recorded
  as a log of events, in the order of the calls, and what they answer is a function of the
  log so far and of the request, so that an answer may depend on everything that happened
  before:
  \<^item> \<open>QueryRow sql\<close>: \<open>source.QueryRow(ctx, sql).Scan(&count)\<close>;
  \<^item> \<open>Query sql\<close>: \<open>source.Query(ctx, sql)\<close>, which opens a cursor;
  \<^item> \<open>Exec sql\<close>: \<open>dest.Exec(ctx, sql)\<close>;
  \<^item> \<open>CopyFromCall ident cols\<close>: \<open>dest.CopyFrom(ctx, ident, cols, ..)\<close> is called;
  \<^item> \<open>CopyRow ident cols row\<close>: the bulk loader has taken one row.
\<close>

datatype 'v event =
    QueryRow string
  | Query string
  | Exec string
  | CopyFromCall "string list" "string list"
  | CopyRow "string list" "string list" "'v list"

text \<open>
  A \<open>pgx.Rows\<close> cursor: the row it stands on, the rows still to come, and the error that
  ends the stream after them (\<open>None\<close> when the stream ends normally). \<open>Next\<close> moves to
  the next row and tells whether there is one; \<open>Values\<close> reads the row the cursor stands
  on; \<open>Err\<close> is the error of a stream that has ended.
\<close>

record 'v pgxRows =
  current :: "'v list option"
  pending :: "'v list list"
  failure :: "string option"

definition Rows_Next :: "'v pgxRows \<Rightarrow> bool \<times> 'v pgxRows" where
  "Rows_Next rows =
     (case pending rows of
        [] \<Rightarrow> (False, rows\<lparr>current := None\<rparr>)
      | row # rest \<Rightarrow> (True, rows\<lparr>current := Some row, pending := rest\<rparr>))"

definition Rows_Values :: "'v pgxRows \<Rightarrow> string + 'v list" where
  "Rows_Values rows = (case current rows of None \<Rightarrow> Inl ''rows is closed'' | Some row \<Rightarrow> Inr row)"

definition Rows_Err :: "'v pgxRows \<Rightarrow> string option" where
  "Rows_Err rows = (if pending rows = [] then failure rows else None)"

text \<open>
  The progress bar is a sink: it is created with the row count as its maximum
  (\<open>progressbar.Default\<close>) and records the units it is notified of by \<open>Add\<close>, in order.
\<close>

record ProgressBar =
  maximum :: int
  added :: "int list"

definition Default_bar :: "int \<Rightarrow> ProgressBar" where
  "Default_bar count = \<lparr>maximum = count, added = []\<rparr>"

definition Add :: "ProgressBar \<Rightarrow> int \<Rightarrow> ProgressBar" where
  "Add bar n = bar\<lparr>added := added bar @ [n]\<rparr>"

text \<open>
  \<open>ProgressBarRows\<close> (lines 308-319) embeds the cursor and holds the bar. \<open>Next\<close> is its
  own method; \<open>Values\<close> and \<open>Err\<close> are the methods of the embedded cursor, which Go
  promotes to the wrapper.
\<close>

record 'v ProgressBarRows =
  Rows :: "'v pgxRows"
  Bar :: ProgressBar

definition Next :: "'v ProgressBarRows \<Rightarrow> bool \<times> 'v ProgressBarRows" where
  "Next r =
     (case Rows_Next (Rows r) of
        (True, rows) \<Rightarrow> (True, r\<lparr>Rows := rows, Bar := Add (Bar r) 1\<rparr>)
      | (False, rows) \<Rightarrow> (False, r\<lparr>Rows := rows\<rparr>))"

definition Values :: "'v ProgressBarRows \<Rightarrow> string + 'v list" where
  "Values r = Rows_Values (Rows r)"

definition Err :: "'v ProgressBarRows \<Rightarrow> string option" where
  "Err r = Rows_Err (Rows r)"

text \<open>\<open>n\<close> calls of \<open>Next\<close> in a row, with what each of them returned.\<close>

fun NextTimes :: "nat \<Rightarrow> 'v ProgressBarRows \<Rightarrow> bool list \<times> 'v ProgressBarRows" where
  "NextTimes 0 r = ([], r)"
| "NextTimes (Suc n) r =
     (case Next r of (b, r') \<Rightarrow> (case NextTimes n r' of (bs, r'') \<Rightarrow> (b # bs, r'')))"

text \<open>
  The answers of the two connections during schema creation and data transfer. An
  \<open>Exec\<close> and the bulk loader answer with an error or with \<open>None\<close> (Go's \<open>nil\<close>).
\<close>

record 'v env =
  source_QueryRow :: "'v event list \<Rightarrow> string \<Rightarrow> string + int"
  source_Query :: "'v event list \<Rightarrow> string \<Rightarrow> string + 'v pgxRows"
  dest_Exec :: "'v event list \<Rightarrow> string \<Rightarrow> string option"
  dest_CopyRow :: "'v event list \<Rightarrow> string list \<Rightarrow> string list \<Rightarrow> 'v list \<Rightarrow> string option"
  dest_CopyEnd :: "'v event list \<Rightarrow> string list \<Rightarrow> string list \<Rightarrow> string option"

text \<open>
  \<open>CopyFrom\<close> of the driver, by the contract of its row source: it calls \<open>Next\<close> until
  that returns false, hands the \<open>Values\<close> of each row to the bulk loader, stops at the
  first error of \<open>Values\<close> or of the loader, and when the rows are exhausted reports the
  \<open>Err\<close> of the source or else the answer of the loader to the end of the stream.
\<close>

function CopyFrom ::
  "'v env \<Rightarrow> 'v event list \<Rightarrow> string list \<Rightarrow> string list \<Rightarrow> 'v ProgressBarRows
     \<Rightarrow> string option \<times> 'v event list \<times> 'v ProgressBarRows" where
  "CopyFrom env log ident cols src =
     (let (more, src') = Next src in
      if more then
        (case Values src' of
           Inl err \<Rightarrow> (Some err, log, src')
         | Inr row \<Rightarrow>
             (case dest_CopyRow env log ident cols row of
                Some err \<Rightarrow> (Some err, log, src')
              | None \<Rightarrow> CopyFrom env (log @ [CopyRow ident cols row]) ident cols src'))
      else
        (case Err src' of
           Some err \<Rightarrow> (Some err, log, src')
         | None \<Rightarrow> (dest_CopyEnd env log ident cols, log, src')))"
  by pat_completeness auto
termination
  by (relation "measure (\<lambda>(env, log, ident, cols, src). length (pending (Rows src)))")
     (auto simp: Next_def Rows_Next_def split: list.splits)

section \<open>Catalog Reader (introspectSchema, lines 94-207)\<close>

text \<open>
  The answers of the source to the three catalog queries: the table list, and for a table
  name (the parameter \<open>$1\<close>) its columns in \<open>attnum\<close> order and its primary-key columns in
  ordinal position. Each answer is the error of the query, or the rows that \<open>Next\<close>
  delivers, each with the outcome of its \<open>Scan\<close>.
\<close>

record catalog =
  tables_query :: "string + (string + string) list"
  columns_query :: "string \<Rightarrow> string + (string + column_row) list"
  pk_query :: "string \<Rightarrow> string + (string + string) list"

text \<open>Lines 106-113: one \<open>Table\<close> with only its name per row.\<close>

fun scanTables :: "(string + string) list \<Rightarrow> Table list \<Rightarrow> string + Table list" where
  "scanTables [] tables = Inr tables"
| "scanTables (Inl err # rows) tables = Inl err"
| "scanTables (Inr tablename # rows) tables =
     scanTables rows (tables @ [\<lparr>TableName = tablename, Columns = [], PrimaryKey = []\<rparr>])"

text \<open>Lines 195-202: the key columns are appended in the order of the rows.\<close>

fun scanPrimaryKey :: "(string + string) list \<Rightarrow> string list \<Rightarrow> string + string list" where
  "scanPrimaryKey [] pk = Inr pk"
| "scanPrimaryKey (Inl err # rows) pk = Inl err"
| "scanPrimaryKey (Inr pkCol # rows) pk = scanPrimaryKey rows (pk @ [pkCol])"

text \<open>Lines 118-203: the body of the loop over the tables.\<close>

definition fillTable :: "catalog \<Rightarrow> Table \<Rightarrow> string + Table" where
  "fillTable cat t =
     (case columns_query cat (TableName t) of
        Inl err \<Rightarrow> Inl (''failed to get columns for table '' @ TableName t @ '': '' @ err)
      | Inr cRows \<Rightarrow>
          (case scanColumns cRows (Columns t) of
             Inl err \<Rightarrow> Inl err
           | Inr cols \<Rightarrow>
               (case pk_query cat (TableName t) of
                  Inl err \<Rightarrow> Inl (''failed to get PK for table '' @ TableName t @ '': '' @ err)
                | Inr pkRows \<Rightarrow>
                    (case scanPrimaryKey pkRows (PrimaryKey t) of
                       Inl err \<Rightarrow> Inl err
                     | Inr pk \<Rightarrow> Inr (t\<lparr>Columns := cols, PrimaryKey := pk\<rparr>)))))"

fun fillTables :: "catalog \<Rightarrow> Table list \<Rightarrow> string + Table list" where
  "fillTables cat [] = Inr []"
| "fillTables cat (t # tables) =
     (case fillTable cat t of
        Inl err \<Rightarrow> Inl err
      | Inr t' \<Rightarrow>
          (case fillTables cat tables of
             Inl err \<Rightarrow> Inl err
           | Inr tables' \<Rightarrow> Inr (t' # tables')))"

definition introspectSchema :: "catalog \<Rightarrow> string + Table list" where
  "introspectSchema cat =
     (case tables_query cat of
        Inl err \<Rightarrow> Inl (''failed to list tables: '' @ err)
      | Inr rows \<Rightarrow>
          (case scanTables rows [] of
             Inl err \<Rightarrow> Inl err
           | Inr tables \<Rightarrow> fillTables cat tables))"

section \<open>Schema Writer (createSchema, lines 209-253)\<close>

text \<open>
  Lines 219-232: the loop over the columns, with the index \<open>i\<close>, the length \<open>n\<close> of
  \<open>t.Columns\<close> and the statement built so far. The comparison \<open>i < len(t.Columns)-1\<close> is
  one of Go integers.
\<close>

fun columnsLoop :: "Column list \<Rightarrow> nat \<Rightarrow> nat \<Rightarrow> string \<Rightarrow> string" where
  \<open>columnsLoop [] i n sql = sql\<close>
| \<open>columnsLoop (c # cs) i n sql =
     (let sql = sql @ ''"'' @ Name c @ ''" '' @ DataType c;
          sql = (if IsNullable c = ''NO'' then sql @ '' NOT NULL'' else sql);
          sql = (case Default c of None \<Rightarrow> sql | Some d \<Rightarrow> sql @ '' DEFAULT '' @ d);
          sql = (if int i < int n - 1 then sql @ '', '' else sql)
      in columnsLoop cs (Suc i) n sql)\<close>

text \<open>Lines 236-241: the loop over the key columns.\<close>

fun primaryKeyLoop :: "string list \<Rightarrow> nat \<Rightarrow> nat \<Rightarrow> string \<Rightarrow> string" where
  \<open>primaryKeyLoop [] i n sql = sql\<close>
| \<open>primaryKeyLoop (pk # pks) i n sql =
     (let sql = sql @ ''"'' @ pk @ ''"'';
          sql = (if int i < int n - 1 then sql @ '', '' else sql)
      in primaryKeyLoop pks (Suc i) n sql)\<close>

text \<open>Lines 234-243: what is appended for the primary key.\<close>

definition primaryKeyClause :: "Table \<Rightarrow> string \<Rightarrow> string" where
  \<open>primaryKeyClause t sql =
     (if length (PrimaryKey t) > 0 then
        (let sql = sql @ '', PRIMARY KEY ('';
             sql = primaryKeyLoop (PrimaryKey t) 0 (length (PrimaryKey t)) sql
         in sql @ '')'')
      else sql)\<close>

text \<open>Lines 218-245: the create statement.\<close>

definition createTableSQL :: "Table \<Rightarrow> string" where
  \<open>createTableSQL t =
     (let sql = ''CREATE TABLE "'' @ TableName t @ ''" ('';
          sql = columnsLoop (Columns t) 0 (length (Columns t)) sql;
          sql = primaryKeyClause t sql
      in sql @ '')'')\<close>

definition dropTableSQL :: "Table \<Rightarrow> string" where
  \<open>dropTableSQL t = ''DROP TABLE IF EXISTS "'' @ TableName t @ ''" CASCADE''\<close>

fun createSchema :: "'v env \<Rightarrow> 'v event list \<Rightarrow> Table list \<Rightarrow> string option \<times> 'v event list" where
  "createSchema env log [] = (None, log)"
| "createSchema env log (t # tables) =
     (case dest_Exec env log (dropTableSQL t) of
        Some err \<Rightarrow>
          (Some (''failed to drop table '' @ TableName t @ '': '' @ err),
           log @ [Exec (dropTableSQL t)])
      | None \<Rightarrow>
          (case dest_Exec env (log @ [Exec (dropTableSQL t)]) (createTableSQL t) of
             Some err \<Rightarrow>
               (Some (''failed to create table '' @ TableName t @ '': '' @ err),
                log @ [Exec (dropTableSQL t), Exec (createTableSQL t)])
           | None \<Rightarrow>
               createSchema env (log @ [Exec (dropTableSQL t), Exec (createTableSQL t)]) tables))"

section \<open>Row Streamer (copyData, lines 255-306)\<close>

definition countSQL :: "Table \<Rightarrow> string" where
  \<open>countSQL t = ''SELECT count(*) FROM "'' @ TableName t @ ''"''\<close>

text \<open>Lines 275-280: the two slices filled by the loop over \<open>t.Columns\<close>.\<close>

definition colNames :: "Table \<Rightarrow> string list" where
  "colNames t = map Name (Columns t)"

definition escapedColNames :: "Table \<Rightarrow> string list" where
  \<open>escapedColNames t = map (\<lambda>c. ''"'' @ Name c @ ''"'') (Columns t)\<close>

definition selectSQL :: "Table \<Rightarrow> string" where
  \<open>selectSQL t =
     ''SELECT '' @ joinStrings (escapedColNames t) '', '' @ '' FROM "'' @ TableName t @ ''"''\<close>

text \<open>
  Lines 257-303: the body of the loop over the tables. The result is the error returned
  from inside the body, or \<open>None\<close> when the loop goes on to the next table (after the
  copy, or by \<open>continue\<close> for an empty table), and the log. Printing, \<open>rows.Close()\<close> and
  \<open>bar.Finish()\<close> do not act on the connections' answers and are left out.
\<close>

definition copyTable :: "'v env \<Rightarrow> 'v event list \<Rightarrow> Table \<Rightarrow> string option \<times> 'v event list" where
  "copyTable env log t =
     (case source_QueryRow env log (countSQL t) of
        Inl err \<Rightarrow>
          (Some (''failed to get count for table '' @ TableName t @ '': '' @ err),
           log @ [QueryRow (countSQL t)])
      | Inr count \<Rightarrow>
          if count = 0 then (None, log @ [QueryRow (countSQL t)])
          else
            (case source_Query env (log @ [QueryRow (countSQL t)]) (selectSQL t) of
               Inl err \<Rightarrow>
                 (Some (''failed to query rows from '' @ TableName t @ '': '' @ err),
                  log @ [QueryRow (countSQL t), Query (selectSQL t)])
             | Inr rows \<Rightarrow>
                 (case CopyFrom env
                         (log @ [QueryRow (countSQL t), Query (selectSQL t),
                                 CopyFromCall [TableName t] (colNames t)])
                         [TableName t] (colNames t)
                         \<lparr>Rows = rows, Bar = Default_bar count\<rparr> of
                    (Some err, log', pbRows) \<Rightarrow>
                      (Some (''failed to copy data for table '' @ TableName t @ '': '' @ err), log')
                  | (None, log', pbRows) \<Rightarrow> (None, log'))))"

fun copyData :: "'v env \<Rightarrow> 'v event list \<Rightarrow> Table list \<Rightarrow> string option \<times> 'v event list" where
  "copyData env log [] = (None, log)"
| "copyData env log (t # tables) =
     (case copyTable env log t of
        (Some err, log') \<Rightarrow> (Some err, log')
      | (None, log') \<Rightarrow> copyData env log' tables)"

section \<open>Migration Orchestrator (migrate, lines 72-92)\<close>

definition migrate :: "catalog \<Rightarrow> 'v env \<Rightarrow> 'v event list \<Rightarrow> string option \<times> 'v event list" where
  "migrate cat env log =
     (case introspectSchema cat of
        Inl err \<Rightarrow> (Some (''failed to introspect schema: '' @ err), log)
      | Inr tables \<Rightarrow>
          (case createSchema env log tables of
             (Some err, log') \<Rightarrow> (Some (''failed to create schema: '' @ err), log')
           | (None, log') \<Rightarrow>
               (case copyData env log' tables of
                  (Some err, log'') \<Rightarrow> (Some (''failed to copy data: '' @ err), log'')
                | (None, log'') \<Rightarrow> (None, log''))))"

section \<open>The statements in the words of the specification\<close>

text \<open>
  One column of a create statement as the specification describes it: the name as a
  delimited identifier, the type, \<open>NOT NULL\<close> when the column is not nullable, and a
  \<open>DEFAULT\<close> clause when a default expression is present.
\<close>

definition columnDefinition :: "Column \<Rightarrow> string" where
  \<open>columnDefinition c =
     ''"'' @ Name c @ ''" '' @ DataType c @
     (if IsNullable c = ''NO'' then '' NOT NULL'' else []) @
     (case Default c of None \<Rightarrow> [] | Some d \<Rightarrow> '' DEFAULT '' @ d)\<close>

text \<open>A delimited identifier: the name between double quotes, with nothing escaped.\<close>

definition delimited :: "string \<Rightarrow> string" where
  \<open>delimited name = ''"'' @ name @ ''"''\<close>

text \<open>A list of items separated by a comma and a space.\<close>

fun commaSeparated :: "string list \<Rightarrow> string" where
  "commaSeparated [] = []"
| "commaSeparated [s] = s"
| "commaSeparated (s # s' # ss) = s @ '', '' @ commaSeparated (s' # ss)"

text \<open>
  The rows that the bulk loader of the destination has taken for a table identifier, each
  with the column list it was sent under, in the order of arrival.
\<close>

fun rowsOf :: "string list \<Rightarrow> 'v event list \<Rightarrow> (string list \<times> 'v list) list" where
  "rowsOf ident [] = []"
| "rowsOf ident (e # log) =
     (case e of
        CopyRow i cols row \<Rightarrow>
          if i = ident then (cols, row) # rowsOf ident log else rowsOf ident log
      | _ \<Rightarrow> rowsOf ident log)"

text \<open>
  The bulk loader takes every row of a list, one after the other, starting from a log.
\<close>

fun loaderAccepts ::
  "'v env \<Rightarrow> 'v event list \<Rightarrow> string list \<Rightarrow> string list \<Rightarrow> 'v list list \<Rightarrow> bool" where
  "loaderAccepts env log ident cols [] = True"
| "loaderAccepts env log ident cols (row # rows) =
     (dest_CopyRow env log ident cols row = None \<and>
      loaderAccepts env (log @ [CopyRow ident cols row]) ident cols rows)"

text \<open>
  The log when the bulk load of a table begins, after the count query, the row query and
  the call of \<open>CopyFrom\<close>; and the events of the rows the loader has taken for the table.
\<close>

definition loadStart :: "'v event list \<Rightarrow> Table \<Rightarrow> 'v event list" where
  "loadStart log t =
     log @ [QueryRow (countSQL t), Query (selectSQL t), CopyFromCall [TableName t] (colNames t)]"

definition rowEvents :: "Table \<Rightarrow> 'v list list \<Rightarrow> 'v event list" where
  "rowEvents t rows = map (CopyRow [TableName t] (colNames t)) rows"

section \<open>Properties of the string helpers\<close>

lemma contains_iff_sublist: "contains s substr \<longleftrightarrow> sublist substr s"
  by (induction s) (auto simp: sublist_Cons_right)

lemma joinLoop_append: "joinLoop res strs sep = res @ concat (map (\<lambda>s. sep @ s) strs)"
  by (induction strs arbitrary: res) simp_all

section \<open>Properties of the sanitizer\<close>

lemma scanColumns_acc:
  "scanColumns rows cols = Inr out \<Longrightarrow>
     \<exists>rs. rows = map Inr rs \<and> out = cols @ map (\<lambda>r. sanitize (columnOfRow r)) rs"
proof (induction rows cols rule: scanColumns.induct)
  case (1 cols)
  then show ?case by simp
next
  case (2 err rows cols)
  then show ?case by simp
next
  case (3 r rows cols)
  then obtain rs where "rows = map Inr rs"
    and "out = (cols @ [sanitize (columnOfRow r)]) @ map (\<lambda>r. sanitize (columnOfRow r)) rs"
    by auto
  then have "Inr r # rows = map Inr (r # rs) \<and>
      out = cols @ map (\<lambda>r. sanitize (columnOfRow r)) (r # rs)"
    by simp
  then show ?case by (rule exI [where x = "r # rs"])
qed

lemma sanitize_Name: "Name (sanitize c) = Name c"
  by (simp add: sanitize_def handleSequences_def dropPrivateDefault_def split: option.splits)

lemma sanitize_IsNullable: "IsNullable (sanitize c) = IsNullable c"
  by (simp add: sanitize_def handleSequences_def dropPrivateDefault_def split: option.splits)

lemma sanitize_no_Default: "Default c = None \<Longrightarrow> Default (sanitize c) = None"
  by (simp add: sanitize_def handleSequences_def dropPrivateDefault_def)

lemma families_disjoint:
  "prefix ''bigint'' dt \<or> dt = ''int8'' \<Longrightarrow> \<not> (prefix ''integer'' dt \<or> dt = ''int4'')"
  by (auto simp: prefix_def)

text \<open>
  What the second rule does, in terms of the two tests of the code: a default that survives
  the first rule and contains \<open>nextval(\<close> turns a type that starts with \<open>integer\<close> or
  is \<open>int4\<close> into \<open>SERIAL\<close> and one that starts with \<open>bigint\<close> or is \<open>int8\<close> into
  \<open>BIGSERIAL\<close>, both without default; a type that passes neither test is kept with
  its default. A default dropped by the first rule leaves the type as it is.
\<close>

lemma sanitize_sequence_rule:
  assumes "Default c = Some d"
  shows "(\<not> contains d ''xata_private'' \<and> \<not> contains d ''::xata_'' \<and> contains d ''nextval('' \<longrightarrow>
            (prefix ''integer'' (DataType c) \<or> DataType c = ''int4'' \<longrightarrow>
               DataType (sanitize c) = ''SERIAL'' \<and> Default (sanitize c) = None) \<and>
            (prefix ''bigint'' (DataType c) \<or> DataType c = ''int8'' \<longrightarrow>
               DataType (sanitize c) = ''BIGSERIAL'' \<and> Default (sanitize c) = None) \<and>
            (\<not> (prefix ''integer'' (DataType c) \<or> DataType c = ''int4'') \<and>
             \<not> (prefix ''bigint'' (DataType c) \<or> DataType c = ''int8'') \<longrightarrow>
               DataType (sanitize c) = DataType c \<and> Default (sanitize c) = Some d)) \<and>
         (contains d ''xata_private'' \<or> contains d ''::xata_'' \<longrightarrow>
            DataType (sanitize c) = DataType c \<and> Default (sanitize c) = None)"
proof -
  have dropped: "contains d ''xata_private'' \<or> contains d ''::xata_'' \<Longrightarrow>
      dropPrivateDefault c = c\<lparr>Default := None\<rparr>"
    using assms by (simp add: dropPrivateDefault_def)
  have kept: "\<not> contains d ''xata_private'' \<Longrightarrow> \<not> contains d ''::xata_'' \<Longrightarrow>
      dropPrivateDefault c = c"
    using assms by (simp add: dropPrivateDefault_def)
  show ?thesis
  proof (intro conjI impI; (elim conjE)?)
    assume "contains d ''xata_private'' \<or> contains d ''::xata_''"
    from dropped [OF this] show "DataType (sanitize c) = DataType c"
      by (simp add: sanitize_def handleSequences_def)
  next
    assume "contains d ''xata_private'' \<or> contains d ''::xata_''"
    from dropped [OF this] show "Default (sanitize c) = None"
      by (simp add: sanitize_def handleSequences_def)
  next
    assume a: "\<not> contains d ''xata_private''" "\<not> contains d ''::xata_''" "contains d ''nextval(''"
      and t: "prefix ''integer'' (DataType c) \<or> DataType c = ''int4''"
    from kept [OF a(1,2)] a(3) t assms
    show "DataType (sanitize c) = ''SERIAL''" "Default (sanitize c) = None"
      by (auto simp add: sanitize_def handleSequences_def)
  next
    assume a: "\<not> contains d ''xata_private''" "\<not> contains d ''::xata_''" "contains d ''nextval(''"
      and t: "prefix ''bigint'' (DataType c) \<or> DataType c = ''int8''"
    from families_disjoint [OF t] kept [OF a(1,2)] a(3) t assms
    show "DataType (sanitize c) = ''BIGSERIAL''" "Default (sanitize c) = None"
      by (simp_all add: sanitize_def handleSequences_def)
  next
    assume a: "\<not> contains d ''xata_private''" "\<not> contains d ''::xata_''" "contains d ''nextval(''"
      and t: "\<not> (prefix ''integer'' (DataType c) \<or> DataType c = ''int4'')"
        "\<not> (prefix ''bigint'' (DataType c) \<or> DataType c = ''int8'')"
    from kept [OF a(1,2)] a(3) t assms
    show "DataType (sanitize c) = DataType c" "Default (sanitize c) = Some d"
      by (simp_all add: sanitize_def handleSequences_def)
  qed
qed

text \<open>
  C2. The tests for the two families are prefix tests, so they also hold of the array types
  \<open>integer[]\<close> and \<open>bigint[]\<close>, which are not integer types: a column of such a type
  whose default contains \<open>nextval(\<close> has its type replaced by \<open>SERIAL\<close> or \<open>BIGSERIAL\<close>
  and loses its default, although its type is outside both families.
\<close>

theorem sanitize_integer_array_rewritten:
  \<open>sanitize (columnOfRow (''ids'', ''integer[]'', True,
       Some ''ARRAY[(nextval('s'::regclass))::integer]'')) =
     \<lparr>Name = ''ids'', DataType = ''SERIAL'', IsNullable = ''NO'', Default = None\<rparr> \<and>
   sanitize (columnOfRow (''ids'', ''bigint[]'', False,
       Some ''ARRAY[nextval('s'::regclass)]'')) =
     \<lparr>Name = ''ids'', DataType = ''BIGSERIAL'', IsNullable = ''YES'', Default = None\<rparr>\<close>
  by (simp add: sanitize_def dropPrivateDefault_def handleSequences_def)

text \<open>
  C3. A default that contains \<open>xata_private\<close> or \<open>::xata_\<close> is dropped by the first rule
  and is absent from the sanitized column; any other default leaves the column unchanged
  at this rule.
\<close>

theorem private_default_rule:
  assumes "Default c = Some d"
  shows "(contains d ''xata_private'' \<or> contains d ''::xata_'' \<longrightarrow>
            dropPrivateDefault c = c\<lparr>Default := None\<rparr> \<and> Default (sanitize c) = None) \<and>
         (\<not> contains d ''xata_private'' \<and> \<not> contains d ''::xata_'' \<longrightarrow>
            dropPrivateDefault c = c)"
  using assms by (simp add: dropPrivateDefault_def sanitize_def handleSequences_def)

theorem private_default_rule_witness:
  "Default (sanitize \<lparr>Name = ''note'', DataType = ''text'', IsNullable = ''YES'',
      Default = Some ''xata_private.foo()''\<rparr>) = None \<and>
   Default (sanitize \<lparr>Name = ''id'', DataType = ''text'', IsNullable = ''YES'',
      Default = Some ''(a)::xata_id''\<rparr>) = None \<and>
   dropPrivateDefault \<lparr>Name = ''note'', DataType = ''text'', IsNullable = ''YES'',
      Default = Some ''now()''\<rparr> =
     \<lparr>Name = ''note'', DataType = ''text'', IsNullable = ''YES'', Default = Some ''now()''\<rparr>"
  using
    private_default_rule [of "\<lparr>Name = ''note'', DataType = ''text'', IsNullable = ''YES'',
      Default = Some ''xata_private.foo()''\<rparr>" "''xata_private.foo()''"]
    private_default_rule [of "\<lparr>Name = ''id'', DataType = ''text'', IsNullable = ''YES'',
      Default = Some ''(a)::xata_id''\<rparr>" "''(a)::xata_id''"]
    private_default_rule [of "\<lparr>Name = ''note'', DataType = ''text'', IsNullable = ''YES'',
      Default = Some ''now()''\<rparr>" "''now()''"]
  by simp


section \<open>Properties of the Schema Writer and of the Catalog Reader\<close>

lemma commaSeparated_Cons:
  "commaSeparated (s # ss) = s @ (if ss = [] then [] else '', '' @ commaSeparated ss)"
  by (cases ss) simp_all

lemma columnsLoop_closed:
  "n = i + length cs \<Longrightarrow>
     columnsLoop cs i n sql = sql @ commaSeparated (map columnDefinition cs)"
proof (induction cs arbitrary: i sql)
  case Nil
  then show ?case by simp
next
  case (Cons c cs)
  have last: "int i < int n - 1 \<longleftrightarrow> cs \<noteq> []"
    using Cons.prems by (cases cs) auto
  have "n = Suc i + length cs" using Cons.prems by simp
  from Cons.IH [OF this] last show ?case
    by (simp add: commaSeparated_Cons columnDefinition_def Let_def split: option.splits)
qed

lemma primaryKeyLoop_closed:
  "n = i + length pks \<Longrightarrow>
     primaryKeyLoop pks i n sql = sql @ commaSeparated (map delimited pks)"
proof (induction pks arbitrary: i sql)
  case Nil
  then show ?case by simp
next
  case (Cons pk pks)
  have last: "int i < int n - 1 \<longleftrightarrow> pks \<noteq> []"
    using Cons.prems by (cases pks) auto
  have "n = Suc i + length pks" using Cons.prems by simp
  from Cons.IH [OF this] last show ?case
    by (simp add: commaSeparated_Cons delimited_def Let_def)
qed

lemma primaryKeyClause_closed:
  \<open>primaryKeyClause t sql =
     sql @ (if PrimaryKey t = [] then []
            else '', PRIMARY KEY ('' @ commaSeparated (map delimited (PrimaryKey t)) @ '')'')\<close>
  by (simp add: primaryKeyClause_def primaryKeyLoop_closed Let_def)

text \<open>
  C5. The create statement is \<open>CREATE TABLE\<close>, the table name as a delimited identifier
  and, between parentheses, the columns in the order of the snapshot, separated by commas,
  followed by what the primary key adds. Each column is its name as a delimited identifier
  (the name is copied as it is, nothing is escaped), its type, \<open>NOT NULL\<close> exactly when
  \<open>IsNullable\<close> is \<open>NO\<close>, which is the case exactly when the catalog's not-null flag is
  set, and \<open>DEFAULT\<close> with the expression exactly when a default is present. The drop
  statement delimits the table name in the same way.
\<close>

theorem createTableSQL_columns:
  \<open>createTableSQL t =
     primaryKeyClause t
       (''CREATE TABLE "'' @ TableName t @ ''" ('' @
        commaSeparated (map columnDefinition (Columns t))) @ '')'' \<and>
   columnDefinition c =
     ''"'' @ Name c @ ''" '' @ DataType c @
     (if IsNullable c = ''NO'' then '' NOT NULL'' else []) @
     (case Default c of None \<Rightarrow> [] | Some d \<Rightarrow> '' DEFAULT '' @ d) \<and>
   dropTableSQL t = ''DROP TABLE IF EXISTS "'' @ TableName t @ ''" CASCADE'' \<and>
   (IsNullable (sanitize (columnOfRow (attname, typ, notNull, dflt))) = ''NO'') = notNull\<close>
  by (simp add: createTableSQL_def columnsLoop_closed Let_def columnDefinition_def
      dropTableSQL_def sanitize_IsNullable)

theorem createTableSQL_columns_witness:
  \<open>createTableSQL
     \<lparr>TableName = ''users'',
      Columns = [\<lparr>Name = ''id'', DataType = ''SERIAL'', IsNullable = ''NO'', Default = None\<rparr>,
                 \<lparr>Name = ''note'', DataType = ''text'', IsNullable = ''YES'',
                  Default = Some ''now()''\<rparr>],
      PrimaryKey = [''id'']\<rparr> =
   ''CREATE TABLE "users" ("id" SERIAL NOT NULL, "note" text DEFAULT now(), PRIMARY KEY ("id"))'' \<and>
   IsNullable (sanitize (columnOfRow (''id'', ''integer'', True, None))) = ''NO''\<close>
  using createTableSQL_columns
    [of "\<lparr>TableName = ''users'',
      Columns = [\<lparr>Name = ''id'', DataType = ''SERIAL'', IsNullable = ''NO'', Default = None\<rparr>,
                 \<lparr>Name = ''note'', DataType = ''text'', IsNullable = ''YES'',
                  Default = Some ''now()''\<rparr>],
      PrimaryKey = [''id'']\<rparr>"
      "\<lparr>Name = ''id'', DataType = ''SERIAL'', IsNullable = ''NO'', Default = None\<rparr>"
      "''id''" "''integer''" True None]
  by (simp add: primaryKeyClause_def columnDefinition_def)

lemma scanPrimaryKey_acc:
  "scanPrimaryKey rows pk = Inr out \<Longrightarrow> map Inr out = map Inr pk @ rows"
  by (induction rows pk rule: scanPrimaryKey.induct) simp_all

lemma scanTables_acc:
  "scanTables rows tables = Inr out \<Longrightarrow>
     \<forall>t \<in> set tables. Columns t = [] \<and> PrimaryKey t = [] \<Longrightarrow>
     \<forall>t \<in> set out. Columns t = [] \<and> PrimaryKey t = []"
  by (induction rows tables rule: scanTables.induct) simp_all

lemma fillTable_PrimaryKey:
  "fillTable cat t = Inr t' \<Longrightarrow> PrimaryKey t = [] \<Longrightarrow>
     TableName t' = TableName t \<and> pk_query cat (TableName t) = Inr (map Inr (PrimaryKey t'))"
  by (auto simp: fillTable_def split: sum.splits dest: scanPrimaryKey_acc)

lemma fillTables_PrimaryKey:
  "fillTables cat tables = Inr out \<Longrightarrow> \<forall>t \<in> set tables. PrimaryKey t = [] \<Longrightarrow>
     \<forall>t \<in> set out. pk_query cat (TableName t) = Inr (map Inr (PrimaryKey t))"
proof (induction tables arbitrary: out)
  case Nil
  then show ?case by simp
next
  case (Cons t tables)
  from Cons.prems(1) obtain t' out' where t': "fillTable cat t = Inr t'"
    and out': "fillTables cat tables = Inr out'" and out: "out = t' # out'"
    by (auto split: sum.splits)
  from fillTable_PrimaryKey [OF t'] Cons.prems(2)
  have "pk_query cat (TableName t') = Inr (map Inr (PrimaryKey t'))" by simp
  moreover from Cons.IH [OF out'] Cons.prems(2)
  have "\<forall>t \<in> set out'. pk_query cat (TableName t) = Inr (map Inr (PrimaryKey t))" by simp
  ultimately show ?case using out by simp
qed

lemma introspectSchema_PrimaryKey:
  assumes "introspectSchema cat = Inr tables" and "t \<in> set tables"
  shows "pk_query cat (TableName t) = Inr (map Inr (PrimaryKey t))"
proof -
  from assms(1) obtain rows names where "tables_query cat = Inr rows"
    and names: "scanTables rows [] = Inr names" and fill: "fillTables cat names = Inr tables"
    by (auto simp: introspectSchema_def split: sum.splits)
  from scanTables_acc [OF names] have "\<forall>t \<in> set names. PrimaryKey t = []" by simp
  from fillTables_PrimaryKey [OF fill this] assms(2) show ?thesis by blast
qed

text \<open>
  C6. The create statement ends with the columns, then one \<open>PRIMARY KEY\<close> clause
  that lists the key columns of the table as delimited identifiers in their order when the
  key is not empty and nothing when it is empty, then the closing parenthesis. The key of
  every table of the snapshot is the list of rows of the key query, in the order of that
  query (its ordinal position), and a table whose key query has no rows is introspected
  without error, with an empty key.
\<close>

theorem primary_key_fidelity:
  \<open>createTableSQL t =
     columnsLoop (Columns t) 0 (length (Columns t)) (''CREATE TABLE "'' @ TableName t @ ''" ('') @
     (if PrimaryKey t = [] then []
      else '', PRIMARY KEY ('' @ commaSeparated (map delimited (PrimaryKey t)) @ '')'') @
     '')'' \<and>
   delimited pk = ''"'' @ pk @ ''"'' \<and>
   (introspectSchema cat = Inr tables \<and> t' \<in> set tables \<longrightarrow>
      pk_query cat (TableName t') = Inr (map Inr (PrimaryKey t'))) \<and>
   (columns_query cat name = Inr cRows \<and> scanColumns cRows [] = Inr cols \<and>
    pk_query cat name = Inr [] \<longrightarrow>
      fillTable cat \<lparr>TableName = name, Columns = [], PrimaryKey = []\<rparr> =
        Inr \<lparr>TableName = name, Columns = cols, PrimaryKey = []\<rparr>)\<close>
  using introspectSchema_PrimaryKey [of cat tables t']
  by (simp add: createTableSQL_def primaryKeyClause_closed Let_def delimited_def fillTable_def)

theorem primary_key_fidelity_witness:
  \<open>createTableSQL \<lparr>TableName = ''k'',
      Columns = [\<lparr>Name = ''a'', DataType = ''text'', IsNullable = ''NO'', Default = None\<rparr>,
                 \<lparr>Name = ''b'', DataType = ''text'', IsNullable = ''NO'', Default = None\<rparr>],
      PrimaryKey = [''b'', ''a'']\<rparr> =
     ''CREATE TABLE "k" ("a" text NOT NULL, "b" text NOT NULL, PRIMARY KEY ("b", "a"))'' \<and>
   createTableSQL \<lparr>TableName = ''logs'',
      Columns = [\<lparr>Name = ''line'', DataType = ''text'', IsNullable = ''YES'', Default = None\<rparr>],
      PrimaryKey = []\<rparr> = ''CREATE TABLE "logs" ("line" text)'' \<and>
   introspectSchema
     \<lparr>tables_query = Inr [Inr ''k'', Inr ''logs''],
      columns_query = (\<lambda>name. if name = ''k''
        then Inr [Inr (''a'', ''text'', True, None), Inr (''b'', ''text'', True, None)]
        else Inr [Inr (''line'', ''text'', False, None)]),
      pk_query = (\<lambda>name. if name = ''k'' then Inr [Inr ''b'', Inr ''a''] else Inr [])\<rparr> =
     Inr [\<lparr>TableName = ''k'',
           Columns = [\<lparr>Name = ''a'', DataType = ''text'', IsNullable = ''NO'', Default = None\<rparr>,
                      \<lparr>Name = ''b'', DataType = ''text'', IsNullable = ''NO'', Default = None\<rparr>],
           PrimaryKey = [''b'', ''a'']\<rparr>,
          \<lparr>TableName = ''logs'',
           Columns = [\<lparr>Name = ''line'', DataType = ''text'', IsNullable = ''YES'', Default = None\<rparr>],
           PrimaryKey = []\<rparr>]\<close>
  using
    primary_key_fidelity [of
      "\<lparr>TableName = ''k'',
        Columns = [\<lparr>Name = ''a'', DataType = ''text'', IsNullable = ''NO'', Default = None\<rparr>,
                   \<lparr>Name = ''b'', DataType = ''text'', IsNullable = ''NO'', Default = None\<rparr>],
        PrimaryKey = [''b'', ''a'']\<rparr>" "''b''"
      "\<lparr>tables_query = Inr [Inr ''k'', Inr ''logs''],
        columns_query = (\<lambda>name. if name = ''k''
          then Inr [Inr (''a'', ''text'', True, None), Inr (''b'', ''text'', True, None)]
          else Inr [Inr (''line'', ''text'', False, None)]),
        pk_query = (\<lambda>name. if name = ''k'' then Inr [Inr ''b'', Inr ''a''] else Inr [])\<rparr>"
      "[\<lparr>TableName = ''k'',
           Columns = [\<lparr>Name = ''a'', DataType = ''text'', IsNullable = ''NO'', Default = None\<rparr>,
                      \<lparr>Name = ''b'', DataType = ''text'', IsNullable = ''NO'', Default = None\<rparr>],
           PrimaryKey = [''b'', ''a'']\<rparr>,
          \<lparr>TableName = ''logs'',
           Columns = [\<lparr>Name = ''line'', DataType = ''text'', IsNullable = ''YES'', Default = None\<rparr>],
           PrimaryKey = []\<rparr>]"
      "\<lparr>TableName = ''logs'',
           Columns = [\<lparr>Name = ''line'', DataType = ''text'', IsNullable = ''YES'', Default = None\<rparr>],
           PrimaryKey = []\<rparr>"
      "''logs''" "[Inr (''line'', ''text'', False, None)]"
      "[\<lparr>Name = ''line'', DataType = ''text'', IsNullable = ''YES'', Default = None\<rparr>]"]
    primary_key_fidelity [of
      "\<lparr>TableName = ''logs'',
        Columns = [\<lparr>Name = ''line'', DataType = ''text'', IsNullable = ''YES'', Default = None\<rparr>],
        PrimaryKey = []\<rparr>"]
  by (simp add: introspectSchema_def fillTable_def sanitize_def dropPrivateDefault_def
      handleSequences_def)

text \<open>
  C10. Sanitizing keeps the name and the nullability of a column, and a column without
  default has none afterwards. The columns of a table are the sanitized rows of the column
  query in the order of the rows: the column at position \<open>i\<close> has the name and the
  nullability of row \<open>i\<close>, and no default when row \<open>i\<close> has none.
\<close>

theorem sanitize_frame:
  "Name (sanitize c) = Name c \<and> IsNullable (sanitize c) = IsNullable c \<and>
   (Default c = None \<longrightarrow> Default (sanitize c) = None) \<and>
   (scanColumns rows [] = Inr cols \<longrightarrow>
      length cols = length rows \<and>
      (\<forall>i < length rows.
         case rows ! i of
           Inl err \<Rightarrow> False
         | Inr (attname, typ, notNull, dflt) \<Rightarrow>
             Name (cols ! i) = attname \<and>
             IsNullable (cols ! i) = (if notNull then ''NO'' else ''YES'') \<and>
             (dflt = None \<longrightarrow> Default (cols ! i) = None)))"
proof (intro conjI impI allI)
  assume "scanColumns rows [] = Inr cols"
  from scanColumns_acc [OF this] obtain rs where rows: "rows = map Inr rs"
    and cols: "cols = map (\<lambda>r. sanitize (columnOfRow r)) rs"
    by auto
  show "length cols = length rows" by (simp add: rows cols)
  fix i assume "i < length rows"
  then have i: "i < length rs" by (simp add: rows)
  obtain a ty nn d where r: "rs ! i = (a, ty, nn, d)"
    by (cases "rs ! i") auto
  show "case rows ! i of
           Inl err \<Rightarrow> False
         | Inr (attname, typ, notNull, dflt) \<Rightarrow>
             Name (cols ! i) = attname \<and>
             IsNullable (cols ! i) = (if notNull then ''NO'' else ''YES'') \<and>
             (dflt = None \<longrightarrow> Default (cols ! i) = None)"
    using i r by (simp add: rows cols sanitize_Name sanitize_IsNullable sanitize_no_Default)
qed (simp_all add: sanitize_Name sanitize_IsNullable sanitize_no_Default)

theorem sanitize_frame_witness:
  "scanColumns [Inr (''id'', ''integer'', True, Some ''nextval(users_id_seq)''),
                Inr (''note'', ''text'', False, None)] [] =
     Inr [\<lparr>Name = ''id'', DataType = ''SERIAL'', IsNullable = ''NO'', Default = None\<rparr>,
          \<lparr>Name = ''note'', DataType = ''text'', IsNullable = ''YES'', Default = None\<rparr>] \<and>
   Name (sanitize \<lparr>Name = ''id'', DataType = ''integer'', IsNullable = ''NO'',
                   Default = Some ''nextval(users_id_seq)''\<rparr>) = ''id'' \<and>
   Default (sanitize \<lparr>Name = ''note'', DataType = ''text'', IsNullable = ''YES'',
                   Default = None\<rparr>) = None"
  using
    sanitize_frame [of
      "\<lparr>Name = ''id'', DataType = ''integer'', IsNullable = ''NO'',
        Default = Some ''nextval(users_id_seq)''\<rparr>"
      "[Inr (''id'', ''integer'', True, Some ''nextval(users_id_seq)''),
        Inr (''note'', ''text'', False, None)]"
      "[\<lparr>Name = ''id'', DataType = ''SERIAL'', IsNullable = ''NO'', Default = None\<rparr>,
        \<lparr>Name = ''note'', DataType = ''text'', IsNullable = ''YES'', Default = None\<rparr>]"]
    sanitize_frame [of
      "\<lparr>Name = ''note'', DataType = ''text'', IsNullable = ''YES'', Default = None\<rparr>" "[]" "[]"]
  by (simp add: sanitize_def dropPrivateDefault_def handleSequences_def)

section \<open>Properties of the Row Streamer\<close>

lemma rowsOf_append: "rowsOf ident (log @ log') = rowsOf ident log @ rowsOf ident log'"
  by (induction log) (simp_all split: event.splits)

lemma rowsOf_CopyRows:
  "rowsOf ident (map (CopyRow i cols) rows) = (if i = ident then map (Pair cols) rows else [])"
  by (induction rows) auto

lemma joinStrings_commaSeparated: "joinStrings strs '', '' = commaSeparated strs"
proof -
  have "s @ concat (map (\<lambda>s. '', '' @ s) ss) = commaSeparated (s # ss)" for s ss
    by (induction ss arbitrary: s) (simp_all add: commaSeparated_Cons)
  then show ?thesis by (cases strs) (simp_all add: joinLoop_append)
qed

lemma Next_True:
  "Next src = (True, src') \<Longrightarrow>
     \<exists>row rest. pending (Rows src) = row # rest \<and>
       src' = \<lparr>Rows = (Rows src)\<lparr>current := Some row, pending := rest\<rparr>, Bar = Add (Bar src) 1\<rparr>"
  by (cases src) (auto simp: Next_def Rows_Next_def split: list.splits)

lemma Next_False:
  "Next src = (False, src') \<Longrightarrow> pending (Rows src) = [] \<and> pending (Rows src') = []"
  by (auto simp: Next_def Rows_Next_def split: list.splits)

lemma CopyFrom_log:
  "CopyFrom env log ident cols src = (res, log', src') \<Longrightarrow>
     \<exists>k \<le> length (pending (Rows src)).
       log' = log @ map (CopyRow ident cols) (take k (pending (Rows src))) \<and>
       (res = None \<longrightarrow> k = length (pending (Rows src)))"
proof (induction env log ident cols src arbitrary: res log' src' rule: CopyFrom.induct)
  case (1 env log ident cols src)
  obtain more s where nx: "Next src = (more, s)" by (cases "Next src")
  show ?case
  proof (cases more)
    case False
    with nx have "pending (Rows src) = []" by (simp add: Next_False)
    moreover from "1.prems" nx False have "log' = log"
      by (subst (asm) CopyFrom.simps) (auto split: option.splits)
    ultimately show ?thesis by simp
  next
    case True
    with nx have "Next src = (True, s)" by simp
    from Next_True [OF this]
    obtain row rest where p: "pending (Rows src) = row # rest"
      and s: "s = \<lparr>Rows = (Rows src)\<lparr>current := Some row, pending := rest\<rparr>, Bar = Add (Bar src) 1\<rparr>"
      by auto
    have v: "Values s = Inr row" by (simp add: s Values_def Rows_Values_def)
    show ?thesis
    proof (cases "dest_CopyRow env log ident cols row")
      case (Some err)
      with "1.prems" nx True v have "log' = log \<and> res = Some err"
        by (subst (asm) CopyFrom.simps) auto
      then show ?thesis by (intro exI [of _ 0]) simp
    next
      case None
      with "1.prems" nx True v
      have rec: "CopyFrom env (log @ [CopyRow ident cols row]) ident cols s = (res, log', src')"
        by (subst (asm) CopyFrom.simps) auto
      from "1.IH" [OF refl nx [symmetric] True v None rec]
      obtain k where k: "k \<le> length (pending (Rows s))"
        and l: "log' = (log @ [CopyRow ident cols row]) @
                  map (CopyRow ident cols) (take k (pending (Rows s)))"
        and r: "res = None \<longrightarrow> k = length (pending (Rows s))"
        by auto
      show ?thesis
        using k l r by (intro exI [of _ "Suc k"]) (simp add: p s)
    qed
  qed
qed

lemma copyTable_log:
  assumes "copyTable env log t = (res, log')"
  shows "log' = log @ [QueryRow (countSQL t)] \<or>
         log' = log @ [QueryRow (countSQL t), Query (selectSQL t)] \<or>
         (\<exists>rows. log' = log @ [QueryRow (countSQL t), Query (selectSQL t),
                                CopyFromCall [TableName t] (colNames t)] @
                         map (CopyRow [TableName t] (colNames t)) rows)"
proof (cases "source_QueryRow env log (countSQL t)")
  case (Inl err)
  with assms show ?thesis by (auto simp: copyTable_def)
next
  case (Inr count)
  show ?thesis
  proof (cases "count = 0")
    case True
    with assms Inr show ?thesis by (auto simp: copyTable_def)
  next
    case False
    show ?thesis
    proof (cases "source_Query env (log @ [QueryRow (countSQL t)]) (selectSQL t)")
      case (Inl err)
      with assms Inr False show ?thesis by (auto simp: copyTable_def)
    next
      case (Inr rows)
      obtain r l s where c: "CopyFrom env
          (log @ [QueryRow (countSQL t), Query (selectSQL t), CopyFromCall [TableName t] (colNames t)])
          [TableName t] (colNames t) \<lparr>Rows = rows, Bar = Default_bar count\<rparr> = (r, l, s)"
        by (metis prod_cases3)
      with assms \<open>source_QueryRow env log (countSQL t) = Inr count\<close> False Inr
      have "log' = l" by (auto simp: copyTable_def split: option.splits)
      with CopyFrom_log [OF c] show ?thesis by auto
    qed
  qed
qed

lemma copyTable_prefix: "copyTable env log t = (res, log') \<Longrightarrow> prefix log log'"
  by (drule copyTable_log) (auto simp: prefix_def)

lemma copyTable_other_rows:
  "copyTable env log t = (res, log') \<Longrightarrow> ident \<noteq> [TableName t] \<Longrightarrow>
     rowsOf ident log' = rowsOf ident log"
  by (drule copyTable_log) (auto simp: rowsOf_append rowsOf_CopyRows)

lemma copyData_prefix: "copyData env log tables = (res, log') \<Longrightarrow> prefix log log'"
proof (induction tables arbitrary: log)
  case Nil
  then show ?case by simp
next
  case (Cons t tables)
  obtain r l where t: "copyTable env log t = (r, l)" by (cases "copyTable env log t")
  from copyTable_prefix [OF t] have "prefix log l" .
  moreover have "prefix l log'"
    using Cons t by (cases r) auto
  ultimately show ?case by (rule prefix_order.trans)
qed

lemma copyData_other_rows:
  "copyData env log tables = (res, log') \<Longrightarrow> ident \<notin> (\<lambda>t. [TableName t]) ` set tables \<Longrightarrow>
     rowsOf ident log' = rowsOf ident log"
proof (induction tables arbitrary: log)
  case Nil
  then show ?case by simp
next
  case (Cons t tables)
  obtain r l where t: "copyTable env log t = (r, l)" by (cases "copyTable env log t")
  from Cons.prems(2) have "ident \<noteq> [TableName t]" by auto
  from copyTable_other_rows [OF t this] have "rowsOf ident l = rowsOf ident log" .
  moreover have "rowsOf ident log' = rowsOf ident l"
    using Cons t by (cases r) auto
  ultimately show ?case by simp
qed

lemma copyData_append:
  "copyData env log (tables @ tables') =
     (case copyData env log tables of
        (Some err, log') \<Rightarrow> (Some err, log')
      | (None, log') \<Rightarrow> copyData env log' tables')"
  by (induction tables arbitrary: log) (auto split: prod.splits option.splits)

lemma createSchema_log:
  "createSchema env log tables = (res, log') \<Longrightarrow>
     prefix log log' \<and> rowsOf ident log' = rowsOf ident log \<and>
     (res = None \<longrightarrow> (\<forall>t \<in> set tables. Exec (createTableSQL t) \<in> set log'))"
proof (induction tables arbitrary: log)
  case Nil
  then show ?case by simp
next
  case (Cons t tables)
  show ?case
  proof (cases "dest_Exec env log (dropTableSQL t)")
    case (Some err)
    with Cons.prems show ?thesis by (auto simp: rowsOf_append)
  next
    case None
    show ?thesis
    proof (cases "dest_Exec env (log @ [Exec (dropTableSQL t)]) (createTableSQL t)")
      case (Some err)
      with Cons.prems None show ?thesis by (auto simp: rowsOf_append)
    next
      case None
      with Cons.prems \<open>dest_Exec env log (dropTableSQL t) = None\<close>
      have "createSchema env (log @ [Exec (dropTableSQL t), Exec (createTableSQL t)]) tables =
          (res, log')"
        by simp
      from Cons.IH [OF this]
      have p: "prefix (log @ [Exec (dropTableSQL t), Exec (createTableSQL t)]) log'"
        and r: "rowsOf ident log' =
              rowsOf ident (log @ [Exec (dropTableSQL t), Exec (createTableSQL t)])"
        and e: "res = None \<longrightarrow> (\<forall>t \<in> set tables. Exec (createTableSQL t) \<in> set log')"
        by auto
      from p have "prefix log log'" and "Exec (createTableSQL t) \<in> set log'"
        by (auto simp: prefix_def)
      with r e show ?thesis by (simp add: rowsOf_append)
    qed
  qed
qed

lemma NextTimes_added:
  "NextTimes n r = (bs, r') \<Longrightarrow>
     added (Bar r') = added (Bar r) @ replicate (length (filter (\<lambda>b. b) bs)) 1"
proof (induction n arbitrary: r bs r')
  case 0
  then show ?case by simp
next
  case (Suc n)
  obtain b s where nx: "Next r = (b, s)" by (cases "Next r")
  obtain bs' s' where rest: "NextTimes n s = (bs', s')" by (cases "NextTimes n s")
  from Suc.prems nx rest have bs: "bs = b # bs'" and r': "r' = s'" by simp_all
  from nx have "added (Bar s) = added (Bar r) @ (if b then [1] else [])"
    by (auto simp: Next_def Add_def split: prod.splits bool.splits)
  with Suc.IH [OF rest] show ?case
    by (simp add: bs r' replicate_app_Cons_same)
qed

text \<open>
  C8. \<open>Next\<close> of the wrapper returns what \<open>Next\<close> of the embedded cursor returns and
  leaves the embedded cursor as that call leaves it. The bar is notified of one unit when
  the cursor moved to a row and is left alone when it did not. \<open>Values\<close> and \<open>Err\<close> of
  the wrapper are those of the embedded cursor. The sum of the units notified never
  decreases, and after any number of calls it has grown by the number of calls that
  returned true.
\<close>

theorem ProgressBarRows_Next_decorator:
  "fst (Next r) = fst (Rows_Next (Rows r)) \<and>
   Rows (snd (Next r)) = snd (Rows_Next (Rows r)) \<and>
   Bar (snd (Next r)) = (if fst (Rows_Next (Rows r)) then Add (Bar r) 1 else Bar r) \<and>
   added (Add bar n) = added bar @ [n] \<and>
   Values r = Rows_Values (Rows r) \<and>
   Err r = Rows_Err (Rows r) \<and>
   sum_list (added (Bar r)) \<le> sum_list (added (Bar (snd (Next r)))) \<and>
   sum_list (added (Bar (snd (NextTimes k r)))) =
     sum_list (added (Bar r)) + int (length (filter (\<lambda>b. b) (fst (NextTimes k r))))"
proof -
  obtain bs r' where nt: "NextTimes k r = (bs, r')" by (cases "NextTimes k r")
  have "sum_list (replicate m (1::int)) = int m" for m
    by (induction m) simp_all
  with NextTimes_added [OF nt] nt
  have "sum_list (added (Bar (snd (NextTimes k r)))) =
     sum_list (added (Bar r)) + int (length (filter (\<lambda>b. b) (fst (NextTimes k r))))"
    by simp
  then show ?thesis
    by (auto simp: Next_def Add_def Values_def Err_def split: prod.splits bool.splits)
qed

theorem ProgressBarRows_Next_decorator_witness:
  "Next \<lparr>Rows = \<lparr>current = None, pending = [[1::nat, 2], [3, 4]], failure = None\<rparr>,
         Bar = Default_bar 2\<rparr> =
     (True, \<lparr>Rows = \<lparr>current = Some [1, 2], pending = [[3, 4]], failure = None\<rparr>,
             Bar = \<lparr>maximum = 2, added = [1]\<rparr>\<rparr>) \<and>
   NextTimes (Suc (Suc (Suc 0)))
       \<lparr>Rows = \<lparr>current = None, pending = [[1::nat, 2], [3, 4]], failure = None\<rparr>,
        Bar = Default_bar 2\<rparr> =
     ([True, True, False],
      \<lparr>Rows = \<lparr>current = None, pending = [], failure = None\<rparr>,
       Bar = \<lparr>maximum = 2, added = [1, 1]\<rparr>\<rparr>) \<and>
   sum_list (added (Bar (snd (NextTimes (Suc (Suc (Suc 0)))
      \<lparr>Rows = \<lparr>current = None, pending = [[1::nat, 2], [3, 4]], failure = None\<rparr>,
       Bar = Default_bar 2\<rparr>)))) = 2"
proof -
  have nt: "NextTimes (Suc (Suc (Suc 0)))
       \<lparr>Rows = \<lparr>current = None, pending = [[1::nat, 2], [3, 4]], failure = None\<rparr>,
        Bar = Default_bar 2\<rparr> =
     ([True, True, False],
      \<lparr>Rows = \<lparr>current = None, pending = [], failure = None\<rparr>,
       Bar = \<lparr>maximum = 2, added = [1, 1]\<rparr>\<rparr>)"
    by (simp add: Next_def Rows_Next_def Add_def Default_bar_def)
  have nx: "Next \<lparr>Rows = \<lparr>current = None, pending = [[1::nat, 2], [3, 4]], failure = None\<rparr>,
         Bar = Default_bar 2\<rparr> =
     (True, \<lparr>Rows = \<lparr>current = Some [1, 2], pending = [[3, 4]], failure = None\<rparr>,
             Bar = \<lparr>maximum = 2, added = [1]\<rparr>\<rparr>)"
    by (simp add: Next_def Rows_Next_def Add_def Default_bar_def)
  from ProgressBarRows_Next_decorator
    [of "\<lparr>Rows = \<lparr>current = None, pending = [[1::nat, 2], [3, 4]], failure = None\<rparr>,
         Bar = Default_bar 2\<rparr>" "Default_bar 2" 1 "Suc (Suc (Suc 0))"]
  have "sum_list (added (Bar (snd (NextTimes (Suc (Suc (Suc 0)))
      \<lparr>Rows = \<lparr>current = None, pending = [[1::nat, 2], [3, 4]], failure = None\<rparr>,
       Bar = Default_bar 2\<rparr>)))) =
     sum_list (added (Default_bar 2)) + int (length (filter (\<lambda>b. b) [True, True, False]))"
    unfolding nt by simp
  then have "sum_list (added (Bar (snd (NextTimes (Suc (Suc (Suc 0)))
      \<lparr>Rows = \<lparr>current = None, pending = [[1::nat, 2], [3, 4]], failure = None\<rparr>,
       Bar = Default_bar 2\<rparr>)))) = 2"
    by (simp add: Default_bar_def)
  with nt nx show ?thesis by (intro conjI)
qed




lemma copyTable_error:
  assumes "copyTable env log t = (Some err, log')"
  shows "(\<exists>e. source_QueryRow env log (countSQL t) = Inl e \<and>
              err = ''failed to get count for table '' @ TableName t @ '': '' @ e \<and>
              log' = log @ [QueryRow (countSQL t)]) \<or>
         (\<exists>e. source_Query env (log @ [QueryRow (countSQL t)]) (selectSQL t) = Inl e \<and>
              err = ''failed to query rows from '' @ TableName t @ '': '' @ e \<and>
              log' = log @ [QueryRow (countSQL t), Query (selectSQL t)]) \<or>
         (\<exists>e cursor k.
              source_Query env (log @ [QueryRow (countSQL t)]) (selectSQL t) = Inr cursor \<and>
              err = ''failed to copy data for table '' @ TableName t @ '': '' @ e \<and>
              log' = log @ [QueryRow (countSQL t), Query (selectSQL t),
                            CopyFromCall [TableName t] (colNames t)] @
                     map (CopyRow [TableName t] (colNames t)) (take k (pending cursor)))"
proof (cases "source_QueryRow env log (countSQL t)")
  case (Inl e)
  with assms show ?thesis by (auto simp: copyTable_def)
next
  case (Inr count)
  show ?thesis
  proof (cases "count = 0")
    case True
    with assms Inr show ?thesis by (auto simp: copyTable_def)
  next
    case False
    show ?thesis
    proof (cases "source_Query env (log @ [QueryRow (countSQL t)]) (selectSQL t)")
      case (Inl e)
      with assms Inr False show ?thesis by (auto simp: copyTable_def)
    next
      case (Inr cursor)
      obtain r l s where c: "CopyFrom env
          (log @ [QueryRow (countSQL t), Query (selectSQL t), CopyFromCall [TableName t] (colNames t)])
          [TableName t] (colNames t) \<lparr>Rows = cursor, Bar = Default_bar count\<rparr> = (r, l, s)"
        by (metis prod_cases3)
      with assms \<open>source_QueryRow env log (countSQL t) = Inr count\<close> False Inr
      obtain e where "r = Some e" "log' = l"
        "err = ''failed to copy data for table '' @ TableName t @ '': '' @ e"
        by (auto simp: copyTable_def split: option.splits)
      with CopyFrom_log [OF c] Inr show ?thesis by auto
    qed
  qed
qed

lemma copyTable_success:
  assumes "copyTable env log t = (None, log')"
    and "source_QueryRow env log (countSQL t) = Inr (int (length (pending cursor)))"
    and "source_Query env (log @ [QueryRow (countSQL t)]) (selectSQL t) = Inr cursor"
  shows "log' = log @ [QueryRow (countSQL t)] @
           (if pending cursor = [] then []
            else [Query (selectSQL t), CopyFromCall [TableName t] (colNames t)] @
                 map (CopyRow [TableName t] (colNames t)) (pending cursor))"
proof (cases "pending cursor = []")
  case True
  with assms show ?thesis by (simp add: copyTable_def)
next
  case False
  obtain r l s where c: "CopyFrom env
      (log @ [QueryRow (countSQL t), Query (selectSQL t), CopyFromCall [TableName t] (colNames t)])
      [TableName t] (colNames t)
      \<lparr>Rows = cursor, Bar = Default_bar (int (length (pending cursor)))\<rparr> = (r, l, s)"
    by (metis prod_cases3)
  with assms False have "r = None" "log' = l"
    by (auto simp: copyTable_def split: option.splits)
  with CopyFrom_log [OF c] False show ?thesis by auto
qed

lemma Next_Cons:
  "pending (Rows src) = row # rest \<Longrightarrow>
     Next src = (True, src\<lparr>Rows := (Rows src)\<lparr>current := Some row, pending := rest\<rparr>,
                           Bar := Add (Bar src) 1\<rparr>)"
  by (simp add: Next_def Rows_Next_def)

lemma Next_Nil:
  "pending (Rows src) = [] \<Longrightarrow> Next src = (False, src\<lparr>Rows := (Rows src)\<lparr>current := None\<rparr>\<rparr>)"
  by (simp add: Next_def Rows_Next_def)

lemma CopyFrom_rejected:
  "pending (Rows src) = taken @ row # rest \<Longrightarrow>
   loaderAccepts env log ident cols taken \<Longrightarrow>
   dest_CopyRow env (log @ map (CopyRow ident cols) taken) ident cols row = Some e \<Longrightarrow>
     \<exists>src'. CopyFrom env log ident cols src =
       (Some e, log @ map (CopyRow ident cols) taken, src')"
proof (induction taken arbitrary: src log)
  case Nil
  then have "pending (Rows src) = row # rest" by simp
  from Next_Cons [OF this] Nil(3) show ?case
    by (subst CopyFrom.simps) (simp add: Values_def Rows_Values_def)
next
  case (Cons r taken)
  let ?src = "src\<lparr>Rows := (Rows src)\<lparr>current := Some r, pending := taken @ row # rest\<rparr>,
                    Bar := Add (Bar src) 1\<rparr>"
  from Cons.prems(1) have nx: "Next src = (True, ?src)"
    by (simp add: Next_Cons)
  from Cons.prems(2) have acc: "dest_CopyRow env log ident cols r = None"
    and rest: "loaderAccepts env (log @ [CopyRow ident cols r]) ident cols taken"
    by simp_all
  have "pending (Rows ?src) = taken @ row # rest" by simp
  from Cons.IH [OF this rest] Cons.prems(3)
  obtain src' where "CopyFrom env (log @ [CopyRow ident cols r]) ident cols ?src =
      (Some e, (log @ [CopyRow ident cols r]) @ map (CopyRow ident cols) taken, src')"
    by auto
  with nx acc show ?case
    by (subst CopyFrom.simps) (simp add: Values_def Rows_Values_def del: CopyFrom.simps)
qed

lemma CopyFrom_all_taken:
  "pending (Rows src) = rows \<Longrightarrow> loaderAccepts env log ident cols rows \<Longrightarrow>
     \<exists>src'. CopyFrom env log ident cols src =
       ((case failure (Rows src) of
           Some e \<Rightarrow> Some e
         | None \<Rightarrow> dest_CopyEnd env (log @ map (CopyRow ident cols) rows) ident cols),
        log @ map (CopyRow ident cols) rows, src')"
proof (induction rows arbitrary: src log)
  case Nil
  from Next_Nil [OF Nil(1)] Nil(1) show ?case
    by (subst CopyFrom.simps) (simp add: Err_def Rows_Err_def split: option.splits)
next
  case (Cons r rows)
  let ?src = "src\<lparr>Rows := (Rows src)\<lparr>current := Some r, pending := rows\<rparr>,
                    Bar := Add (Bar src) 1\<rparr>"
  from Cons.prems(1) have nx: "Next src = (True, ?src)"
    by (simp add: Next_Cons)
  from Cons.prems(2) have acc: "dest_CopyRow env log ident cols r = None"
    and rest: "loaderAccepts env (log @ [CopyRow ident cols r]) ident cols rows"
    by simp_all
  have "pending (Rows ?src) = rows" by simp
  from Cons.IH [OF this rest]
  obtain src' where "CopyFrom env (log @ [CopyRow ident cols r]) ident cols ?src =
      ((case failure (Rows ?src) of
           Some e \<Rightarrow> Some e
         | None \<Rightarrow> dest_CopyEnd env
             ((log @ [CopyRow ident cols r]) @ map (CopyRow ident cols) rows) ident cols),
       (log @ [CopyRow ident cols r]) @ map (CopyRow ident cols) rows, src')"
    by auto
  with nx acc show ?case
    by (subst CopyFrom.simps)
      (simp add: Values_def Rows_Values_def del: CopyFrom.simps cong: option.case_cong)
qed

lemma copyTable_CopyFrom_error:
  assumes "source_QueryRow env log (countSQL t) = Inr n" and "n \<noteq> 0"
    and "source_Query env (log @ [QueryRow (countSQL t)]) (selectSQL t) = Inr cursor"
    and "CopyFrom env (loadStart log t) [TableName t] (colNames t)
           \<lparr>Rows = cursor, Bar = Default_bar n\<rparr> = (Some e, log', src)"
  shows "copyTable env log t =
           (Some (''failed to copy data for table '' @ TableName t @ '': '' @ e), log')"
  using assms by (simp add: copyTable_def loadStart_def del: CopyFrom.simps)

text \<open>
  C7. The tables before \<open>t\<close> have been copied. Whenever the environment fails during the
  copy of \<open>t\<close>, that copy returns an error with the name of \<open>t\<close> in front: when the count
  query fails, when the row query fails, when \<open>CopyFrom\<close> returns an error, and in
  particular when the loader rejects a row after taking the rows before it, when the
  cursor ends with a read error, or when the loader rejects the end of the stream. In the
  last three cases the rows taken before the failure stay in the log. Whenever the copy of
  \<open>t\<close> returns an error, \<open>copyData\<close> returns that error, whatever tables follow, and
  \<open>migrate\<close> returns it with the name of the phase in front; the log is the one the
  failing copy left, it extends the log of the tables before and of the schema phase, and
  no event follows the failure. Every error of the copy of \<open>t\<close> is one of the three
  above.
\<close>

theorem transfer_failure_stops:
  assumes bef: "copyData env log before = (None, log1)"
    and snap: "introspectSchema cat = Inr (before @ t # after)"
    and sch: "createSchema env log0 (before @ t # after) = (None, log)"
  shows
    "(source_QueryRow env log1 (countSQL t) = Inl e \<longrightarrow>
        copyTable env log1 t =
          (Some (''failed to get count for table '' @ TableName t @ '': '' @ e),
           log1 @ [QueryRow (countSQL t)])) \<and>
     (source_QueryRow env log1 (countSQL t) = Inr n \<and> n \<noteq> 0 \<and>
      source_Query env (log1 @ [QueryRow (countSQL t)]) (selectSQL t) = Inl e \<longrightarrow>
        copyTable env log1 t =
          (Some (''failed to query rows from '' @ TableName t @ '': '' @ e),
           log1 @ [QueryRow (countSQL t), Query (selectSQL t)])) \<and>
     (source_QueryRow env log1 (countSQL t) = Inr n \<and> n \<noteq> 0 \<and>
      source_Query env (log1 @ [QueryRow (countSQL t)]) (selectSQL t) = Inr cursor \<and>
      CopyFrom env (loadStart log1 t) [TableName t] (colNames t)
        \<lparr>Rows = cursor, Bar = Default_bar n\<rparr> = (Some e, log2, src) \<longrightarrow>
        copyTable env log1 t =
          (Some (''failed to copy data for table '' @ TableName t @ '': '' @ e), log2)) \<and>
     (source_QueryRow env log1 (countSQL t) = Inr n \<and> n \<noteq> 0 \<and>
      source_Query env (log1 @ [QueryRow (countSQL t)]) (selectSQL t) = Inr cursor \<and>
      pending cursor = taken @ row # rest \<and>
      loaderAccepts env (loadStart log1 t) [TableName t] (colNames t) taken \<and>
      dest_CopyRow env (loadStart log1 t @ rowEvents t taken) [TableName t] (colNames t) row =
        Some e \<longrightarrow>
        copyTable env log1 t =
          (Some (''failed to copy data for table '' @ TableName t @ '': '' @ e),
           loadStart log1 t @ rowEvents t taken)) \<and>
     (source_QueryRow env log1 (countSQL t) = Inr n \<and> n \<noteq> 0 \<and>
      source_Query env (log1 @ [QueryRow (countSQL t)]) (selectSQL t) = Inr cursor \<and>
      loaderAccepts env (loadStart log1 t) [TableName t] (colNames t) (pending cursor) \<and>
      failure cursor = Some e \<longrightarrow>
        copyTable env log1 t =
          (Some (''failed to copy data for table '' @ TableName t @ '': '' @ e),
           loadStart log1 t @ rowEvents t (pending cursor))) \<and>
     (source_QueryRow env log1 (countSQL t) = Inr n \<and> n \<noteq> 0 \<and>
      source_Query env (log1 @ [QueryRow (countSQL t)]) (selectSQL t) = Inr cursor \<and>
      loaderAccepts env (loadStart log1 t) [TableName t] (colNames t) (pending cursor) \<and>
      failure cursor = None \<and>
      dest_CopyEnd env (loadStart log1 t @ rowEvents t (pending cursor))
        [TableName t] (colNames t) = Some e \<longrightarrow>
        copyTable env log1 t =
          (Some (''failed to copy data for table '' @ TableName t @ '': '' @ e),
           loadStart log1 t @ rowEvents t (pending cursor))) \<and>
     (copyTable env log1 t = (Some err, log') \<longrightarrow>
        copyData env log (before @ t # after) = (Some err, log') \<and>
        migrate cat env log0 = (Some (''failed to copy data: '' @ err), log') \<and>
        prefix log0 log \<and> prefix log log1 \<and> prefix log1 log' \<and>
        ((\<exists>e. source_QueryRow env log1 (countSQL t) = Inl e \<and>
              err = ''failed to get count for table '' @ TableName t @ '': '' @ e \<and>
              log' = log1 @ [QueryRow (countSQL t)]) \<or>
         (\<exists>e. source_Query env (log1 @ [QueryRow (countSQL t)]) (selectSQL t) = Inl e \<and>
              err = ''failed to query rows from '' @ TableName t @ '': '' @ e \<and>
              log' = log1 @ [QueryRow (countSQL t), Query (selectSQL t)]) \<or>
         (\<exists>e cursor k.
              source_Query env (log1 @ [QueryRow (countSQL t)]) (selectSQL t) = Inr cursor \<and>
              err = ''failed to copy data for table '' @ TableName t @ '': '' @ e \<and>
              log' = loadStart log1 t @ rowEvents t (take k (pending cursor)))))"
proof (intro conjI impI; (elim conjE)?)
  assume "source_QueryRow env log1 (countSQL t) = Inl e"
  then show "copyTable env log1 t =
      (Some (''failed to get count for table '' @ TableName t @ '': '' @ e),
       log1 @ [QueryRow (countSQL t)])"
    by (simp add: copyTable_def)
next
  assume "source_QueryRow env log1 (countSQL t) = Inr n" "n \<noteq> 0"
    "source_Query env (log1 @ [QueryRow (countSQL t)]) (selectSQL t) = Inl e"
  then show "copyTable env log1 t =
      (Some (''failed to query rows from '' @ TableName t @ '': '' @ e),
       log1 @ [QueryRow (countSQL t), Query (selectSQL t)])"
    by (simp add: copyTable_def)
next
  assume "source_QueryRow env log1 (countSQL t) = Inr n" "n \<noteq> 0"
    "source_Query env (log1 @ [QueryRow (countSQL t)]) (selectSQL t) = Inr cursor"
    "CopyFrom env (loadStart log1 t) [TableName t] (colNames t)
        \<lparr>Rows = cursor, Bar = Default_bar n\<rparr> = (Some e, log2, src)"
  then show "copyTable env log1 t =
      (Some (''failed to copy data for table '' @ TableName t @ '': '' @ e), log2)"
    by (rule copyTable_CopyFrom_error)
next
  assume q: "source_QueryRow env log1 (countSQL t) = Inr n" "n \<noteq> 0"
    "source_Query env (log1 @ [QueryRow (countSQL t)]) (selectSQL t) = Inr cursor"
    and p: "pending cursor = taken @ row # rest"
    and a: "loaderAccepts env (loadStart log1 t) [TableName t] (colNames t) taken"
    and r: "dest_CopyRow env (loadStart log1 t @ rowEvents t taken) [TableName t] (colNames t)
        row = Some e"
  have "pending (Rows \<lparr>Rows = cursor, Bar = Default_bar n\<rparr>) = taken @ row # rest"
    using p by simp
  from CopyFrom_rejected [OF this a r [unfolded rowEvents_def]]
  obtain src' where "CopyFrom env (loadStart log1 t) [TableName t] (colNames t)
      \<lparr>Rows = cursor, Bar = Default_bar n\<rparr> =
      (Some e, loadStart log1 t @ rowEvents t taken, src')"
    by (auto simp: rowEvents_def)
  with q show "copyTable env log1 t =
      (Some (''failed to copy data for table '' @ TableName t @ '': '' @ e),
       loadStart log1 t @ rowEvents t taken)"
    by (rule copyTable_CopyFrom_error)
next
  assume q: "source_QueryRow env log1 (countSQL t) = Inr n" "n \<noteq> 0"
    "source_Query env (log1 @ [QueryRow (countSQL t)]) (selectSQL t) = Inr cursor"
    and a: "loaderAccepts env (loadStart log1 t) [TableName t] (colNames t) (pending cursor)"
    and f: "failure cursor = Some e"
  have "pending (Rows \<lparr>Rows = cursor, Bar = Default_bar n\<rparr>) = pending cursor"
    by simp
  from CopyFrom_all_taken [OF this a] f
  obtain src' where "CopyFrom env (loadStart log1 t) [TableName t] (colNames t)
      \<lparr>Rows = cursor, Bar = Default_bar n\<rparr> =
      (Some e, loadStart log1 t @ rowEvents t (pending cursor), src')"
    by (auto simp: rowEvents_def)
  with q show "copyTable env log1 t =
      (Some (''failed to copy data for table '' @ TableName t @ '': '' @ e),
       loadStart log1 t @ rowEvents t (pending cursor))"
    by (rule copyTable_CopyFrom_error)
next
  assume q: "source_QueryRow env log1 (countSQL t) = Inr n" "n \<noteq> 0"
    "source_Query env (log1 @ [QueryRow (countSQL t)]) (selectSQL t) = Inr cursor"
    and a: "loaderAccepts env (loadStart log1 t) [TableName t] (colNames t) (pending cursor)"
    and f: "failure cursor = None"
    and d: "dest_CopyEnd env (loadStart log1 t @ rowEvents t (pending cursor))
        [TableName t] (colNames t) = Some e"
  have "pending (Rows \<lparr>Rows = cursor, Bar = Default_bar n\<rparr>) = pending cursor"
    by simp
  from CopyFrom_all_taken [OF this a] f d
  obtain src' where "CopyFrom env (loadStart log1 t) [TableName t] (colNames t)
      \<lparr>Rows = cursor, Bar = Default_bar n\<rparr> =
      (Some e, loadStart log1 t @ rowEvents t (pending cursor), src')"
    by (auto simp: rowEvents_def)
  with q show "copyTable env log1 t =
      (Some (''failed to copy data for table '' @ TableName t @ '': '' @ e),
       loadStart log1 t @ rowEvents t (pending cursor))"
    by (rule copyTable_CopyFrom_error)
next
  assume fail: "copyTable env log1 t = (Some err, log')"
  show stop: "copyData env log (before @ t # after) = (Some err, log')"
    using bef fail by (simp add: copyData_append)
  show "migrate cat env log0 = (Some (''failed to copy data: '' @ err), log')"
    using snap sch stop by (simp add: migrate_def)
  show "prefix log0 log"
    using createSchema_log [OF sch] by simp
  show "prefix log log1"
    using bef by (rule copyData_prefix)
  show "prefix log1 log'"
    using fail by (rule copyTable_prefix)
  show "(\<exists>e. source_QueryRow env log1 (countSQL t) = Inl e \<and>
              err = ''failed to get count for table '' @ TableName t @ '': '' @ e \<and>
              log' = log1 @ [QueryRow (countSQL t)]) \<or>
         (\<exists>e. source_Query env (log1 @ [QueryRow (countSQL t)]) (selectSQL t) = Inl e \<and>
              err = ''failed to query rows from '' @ TableName t @ '': '' @ e \<and>
              log' = log1 @ [QueryRow (countSQL t), Query (selectSQL t)]) \<or>
         (\<exists>e cursor k.
              source_Query env (log1 @ [QueryRow (countSQL t)]) (selectSQL t) = Inr cursor \<and>
              err = ''failed to copy data for table '' @ TableName t @ '': '' @ e \<and>
              log' = loadStart log1 t @ rowEvents t (take k (pending cursor)))"
    using copyTable_error [OF fail] by (simp add: loadStart_def rowEvents_def)
qed

theorem transfer_failure_stops_witness:
  "(let t = \<lparr>TableName = ''t'',
              Columns = [\<lparr>Name = ''a'', DataType = ''integer'', IsNullable = ''NO'',
                          Default = None\<rparr>],
              PrimaryKey = []\<rparr>;
        cat = \<lparr>tables_query = Inr [Inr ''t''],
                columns_query = (\<lambda>name. Inr [Inr (''a'', ''integer'', True, None)]),
                pk_query = (\<lambda>name. Inr [])\<rparr>;
        env = \<lparr>source_QueryRow = (\<lambda>log sql. Inr 2),
                source_Query = (\<lambda>log sql. Inr \<lparr>current = None, pending = [[3::nat], [4]],
                                                 failure = None\<rparr>),
                dest_Exec = (\<lambda>log sql. None),
                dest_CopyRow = (\<lambda>log ident cols row.
                                  if row = [4] then Some ''duplicate key'' else None),
                dest_CopyEnd = (\<lambda>log ident cols. None)\<rparr>;
        log = [Exec (dropTableSQL t), Exec (createTableSQL t)];
        log2 = log @ [QueryRow (countSQL t), Query (selectSQL t), CopyFromCall [''t''] [''a''],
                      CopyRow [''t''] [''a''] [3]]
    in copyTable env log t = (Some ''failed to copy data for table t: duplicate key'', log2) \<and>
       copyData env log [t] = (Some ''failed to copy data for table t: duplicate key'', log2) \<and>
       migrate cat env [] =
         (Some ''failed to copy data: failed to copy data for table t: duplicate key'', log2))"
proof -
  define t where "t = \<lparr>TableName = ''t'',
              Columns = [\<lparr>Name = ''a'', DataType = ''integer'', IsNullable = ''NO'',
                          Default = None\<rparr>],
              PrimaryKey = []\<rparr>"
  define cat where "cat = \<lparr>tables_query = Inr [Inr ''t''],
                columns_query = (\<lambda>name. Inr [Inr (''a'', ''integer'', True, None)]),
                pk_query = (\<lambda>name. Inr [])\<rparr>"
  define env :: "nat env" where "env = \<lparr>source_QueryRow = (\<lambda>log sql. Inr 2),
                source_Query = (\<lambda>log sql. Inr \<lparr>current = None, pending = [[3::nat], [4]],
                                                 failure = None\<rparr>),
                dest_Exec = (\<lambda>log sql. None),
                dest_CopyRow = (\<lambda>log ident cols row.
                                  if row = [4] then Some ''duplicate key'' else None),
                dest_CopyEnd = (\<lambda>log ident cols. None)\<rparr>"
  define cursor :: "nat pgxRows"
    where "cursor = \<lparr>current = None, pending = [[3], [4]], failure = None\<rparr>"
  define log :: "nat event list" where "log = [Exec (dropTableSQL t), Exec (createTableSQL t)]"
  define log2 where "log2 = log @ [QueryRow (countSQL t), Query (selectSQL t),
                      CopyFromCall [''t''] [''a''], CopyRow [''t''] [''a''] [3]]"
  have names: "TableName t = ''t''" "colNames t = [''a'']"
    by (simp_all add: t_def colNames_def)
  have before: "copyData env log [] = (None, log)"
    by simp
  have snap: "introspectSchema cat = Inr ([] @ t # [])"
    by (simp add: introspectSchema_def cat_def fillTable_def t_def sanitize_def
        dropPrivateDefault_def handleSequences_def)
  have sch: "createSchema env [] ([] @ t # []) = (None, log)"
    by (simp add: env_def log_def)
  have "source_QueryRow env log (countSQL t) = Inr 2 \<and> (2::int) \<noteq> 0 \<and>
      source_Query env (log @ [QueryRow (countSQL t)]) (selectSQL t) = Inr cursor \<and>
      pending cursor = [[3]] @ [4] # [] \<and>
      loaderAccepts env (loadStart log t) [TableName t] (colNames t) [[3]] \<and>
      dest_CopyRow env (loadStart log t @ rowEvents t [[3]]) [TableName t] (colNames t) [4] =
        Some ''duplicate key''"
    by (simp add: env_def cursor_def)
  with transfer_failure_stops
      [where n = 2 and cursor = cursor and taken = "[[3]]" and row = "[4]" and rest = "[]"
        and e = "''duplicate key''",
       OF before snap sch, THEN conjunct2, THEN conjunct2, THEN conjunct2, THEN conjunct1]
  have "copyTable env log t =
      (Some (''failed to copy data for table '' @ TableName t @ '': '' @ ''duplicate key''),
       loadStart log t @ rowEvents t [[3]])"
    by (rule mp)
  then have step: "copyTable env log t =
      (Some ''failed to copy data for table t: duplicate key'', log2)"
    by (simp add: names loadStart_def rowEvents_def log2_def)
  from transfer_failure_stops
      [where err = "''failed to copy data for table t: duplicate key''" and log' = log2,
       OF before snap sch, THEN conjunct2, THEN conjunct2, THEN conjunct2, THEN conjunct2,
       THEN conjunct2, THEN conjunct2] step
  have "copyData env log ([] @ t # []) =
        (Some ''failed to copy data for table t: duplicate key'', log2) \<and>
      migrate cat env [] =
        (Some (''failed to copy data: '' @ ''failed to copy data for table t: duplicate key''),
         log2)"
    by blast
  then have loop: "copyData env log [t] =
      (Some ''failed to copy data for table t: duplicate key'', log2)"
    and top: "migrate cat env [] =
      (Some ''failed to copy data: failed to copy data for table t: duplicate key'', log2)"
    by (simp_all del: copyData.simps)
  from step loop top
  have "copyTable env log t = (Some ''failed to copy data for table t: duplicate key'', log2) \<and>
       copyData env log [t] = (Some ''failed to copy data for table t: duplicate key'', log2) \<and>
       migrate cat env [] =
         (Some ''failed to copy data: failed to copy data for table t: duplicate key'', log2)"
    by (intro conjI)
  then show ?thesis
    unfolding log2_def log_def env_def cat_def t_def Let_def .
qed

text \<open>
  C1. After a successful migration, for a table \<open>t\<close> of the snapshot whose name no other
  table of the snapshot has, whose count query answers the number of rows of the source
  and whose row query answers a cursor over these rows: the rows that the bulk loader of
  the destination has taken for \<open>t\<close> are the rows it had before, followed by exactly the
  rows of the cursor, in their order, each sent under the column names of the snapshot
  in the order of the snapshot. The row query lists these columns as delimited
  identifiers in that order and never starts with \<open>SELECT *\<close>.
\<close>

theorem row_data_round_trip:
  assumes mig: "migrate cat env log0 = (None, final)"
    and snap: "introspectSchema cat = Inr (before @ t # after)"
    and uniq: "TableName t \<notin> TableName ` set (before @ after)"
    and sch: "createSchema env log0 (before @ t # after) = (None, log)"
    and bef: "copyData env log before = (None, log1)"
    and cnt: "source_QueryRow env log1 (countSQL t) = Inr (int (length (pending cursor)))"
    and sel: "source_Query env (log1 @ [QueryRow (countSQL t)]) (selectSQL t) = Inr cursor"
  shows "rowsOf [TableName t] final =
           rowsOf [TableName t] log0 @ map (Pair (map Name (Columns t))) (pending cursor) \<and>
         selectSQL t =
           ''SELECT '' @ commaSeparated (map (\<lambda>c. delimited (Name c)) (Columns t)) @
           '' FROM '' @ delimited (TableName t) \<and>
         \<not> prefix ''SELECT *'' (selectSQL t) \<and>
         (pending cursor \<noteq> [] \<longrightarrow>
            Query (selectSQL t) \<in> set final \<and>
            CopyFromCall [TableName t] (map Name (Columns t)) \<in> set final)"
proof -
  have sql: "selectSQL t =
           ''SELECT '' @ commaSeparated (map (\<lambda>c. delimited (Name c)) (Columns t)) @
           '' FROM '' @ delimited (TableName t)"
    by (simp add: selectSQL_def escapedColNames_def joinStrings_commaSeparated delimited_def)
  have star: "\<not> prefix ''SELECT *'' (selectSQL t)"
    unfolding sql by (cases "Columns t") (simp_all add: commaSeparated_Cons delimited_def)
  from mig snap sch have "copyData env log (before @ t # after) = (None, final)"
    by (simp add: migrate_def split: prod.splits option.splits)
  with bef have "copyData env log1 (t # after) = (None, final)"
    by (simp add: copyData_append)
  then obtain log2 where step: "copyTable env log1 t = (None, log2)"
    and rest: "copyData env log2 after = (None, final)"
    by (auto split: prod.splits option.splits)
  note l2 = copyTable_success [OF step cnt sel]
  have "[TableName t] \<notin> (\<lambda>t. [TableName t]) ` set after"
    and "[TableName t] \<notin> (\<lambda>t. [TableName t]) ` set before"
    using uniq by auto
  from copyData_other_rows [OF rest this(1)] copyData_other_rows [OF bef this(2)]
  have "rowsOf [TableName t] final = rowsOf [TableName t] log2"
    and "rowsOf [TableName t] log1 = rowsOf [TableName t] log"
    by simp_all
  moreover from createSchema_log [OF sch]
  have "rowsOf [TableName t] log = rowsOf [TableName t] log0" by simp
  moreover have "rowsOf [TableName t] log2 =
      rowsOf [TableName t] log1 @ map (Pair (map Name (Columns t))) (pending cursor)"
    unfolding l2 by (simp add: rowsOf_append rowsOf_CopyRows colNames_def)
  ultimately have rows: "rowsOf [TableName t] final =
      rowsOf [TableName t] log0 @ map (Pair (map Name (Columns t))) (pending cursor)"
    by simp
  have "Query (selectSQL t) \<in> set final \<and>
      CopyFromCall [TableName t] (map Name (Columns t)) \<in> set final"
    if "pending cursor \<noteq> []"
  proof -
    from copyData_prefix [OF rest] have "set log2 \<subseteq> set final"
      by (auto simp: prefix_def)
    moreover from that have "Query (selectSQL t) \<in> set log2"
      and "CopyFromCall [TableName t] (map Name (Columns t)) \<in> set log2"
      unfolding l2 by (simp_all add: colNames_def)
    ultimately show ?thesis by blast
  qed
  with rows sql star show ?thesis by blast
qed


theorem row_data_round_trip_witness:
  \<open>(let t = \<lparr>TableName = ''t'',
              Columns = [\<lparr>Name = ''a'', DataType = ''integer'', IsNullable = ''NO'',
                          Default = None\<rparr>],
              PrimaryKey = []\<rparr>;
        cat = \<lparr>tables_query = Inr [Inr ''t''],
                columns_query = (\<lambda>name. Inr [Inr (''a'', ''integer'', True, None)]),
                pk_query = (\<lambda>name. Inr [])\<rparr>;
        env = \<lparr>source_QueryRow = (\<lambda>log sql. Inr 2),
                source_Query = (\<lambda>log sql. Inr \<lparr>current = None, pending = [[3::nat], [4]],
                                                 failure = None\<rparr>),
                dest_Exec = (\<lambda>log sql. None),
                dest_CopyRow = (\<lambda>log ident cols row. None),
                dest_CopyEnd = (\<lambda>log ident cols. None)\<rparr>;
        final = [Exec (dropTableSQL t), Exec (createTableSQL t), QueryRow (countSQL t),
                 Query (selectSQL t), CopyFromCall [''t''] [''a''],
                 CopyRow [''t''] [''a''] [3], CopyRow [''t''] [''a''] [4]]
    in migrate cat env [] = (None, final) \<and>
       rowsOf [''t''] final = [([''a''], [3]), ([''a''], [4])] \<and>
       selectSQL t = ''SELECT "a" FROM "t"'')\<close>
proof -
  define t where "t = \<lparr>TableName = ''t'',
              Columns = [\<lparr>Name = ''a'', DataType = ''integer'', IsNullable = ''NO'',
                          Default = None\<rparr>],
              PrimaryKey = []\<rparr>"
  define cat where "cat = \<lparr>tables_query = Inr [Inr ''t''],
                columns_query = (\<lambda>name. Inr [Inr (''a'', ''integer'', True, None)]),
                pk_query = (\<lambda>name. Inr [])\<rparr>"
  define env :: "nat env" where "env = \<lparr>source_QueryRow = (\<lambda>log sql. Inr 2),
                source_Query = (\<lambda>log sql. Inr \<lparr>current = None, pending = [[3::nat], [4]],
                                                 failure = None\<rparr>),
                dest_Exec = (\<lambda>log sql. None),
                dest_CopyRow = (\<lambda>log ident cols row. None),
                dest_CopyEnd = (\<lambda>log ident cols. None)\<rparr>"
  define cursor :: "nat pgxRows"
    where "cursor = \<lparr>current = None, pending = [[3], [4]], failure = None\<rparr>"
  define log :: "nat event list" where "log = [Exec (dropTableSQL t), Exec (createTableSQL t)]"
  define final :: "nat event list"
    where "final = [Exec (dropTableSQL t), Exec (createTableSQL t),
                 QueryRow (countSQL t), Query (selectSQL t), CopyFromCall [''t''] [''a''],
                 CopyRow [''t''] [''a''] [3], CopyRow [''t''] [''a''] [4]]"
  have names: "TableName t = ''t''" "colNames t = [''a'']" "map Name (Columns t) = [''a'']"
    by (simp_all add: t_def colNames_def)
  have cnt: "source_QueryRow env log (countSQL t) = Inr (int (length (pending cursor)))"
    and sel: "source_Query env (log @ [QueryRow (countSQL t)]) (selectSQL t) = Inr cursor"
    by (simp_all add: env_def cursor_def)
  have copy: "CopyFrom env
      (log @ [QueryRow (countSQL t), Query (selectSQL t), CopyFromCall [''t''] [''a'']])
      [''t''] [''a''] \<lparr>Rows = cursor, Bar = Default_bar 2\<rparr> =
      (None, final,
       \<lparr>Rows = \<lparr>current = None, pending = [], failure = None\<rparr>,
         Bar = \<lparr>maximum = 2, added = [1, 1]\<rparr>\<rparr>)"
    by (simp add: CopyFrom.simps Next_def Rows_Next_def Values_def Rows_Values_def Add_def
        Err_def Rows_Err_def Default_bar_def env_def final_def log_def cursor_def)
  have step: "copyTable env log t = (None, final)"
  proof -
    have "source_QueryRow env log (countSQL t) = Inr 2"
      by (simp add: env_def)
    with sel show ?thesis
      by (simp add: copyTable_def names copy del: CopyFrom.simps)
  qed
  have before: "copyData env log [] = (None, log)"
    by simp
  have snap: "introspectSchema cat = Inr ([] @ t # [])"
    by (simp add: introspectSchema_def cat_def fillTable_def t_def sanitize_def
        dropPrivateDefault_def handleSequences_def)
  have sch: "createSchema env [] ([] @ t # []) = (None, log)"
    by (simp add: env_def log_def)
  have mig: "migrate cat env [] = (None, final)"
  proof -
    from snap have "introspectSchema cat = Inr [t]" by simp
    moreover from sch have "createSchema env [] [t] = (None, log)"
      by (simp del: createSchema.simps)
    moreover from step have "copyData env log [t] = (None, final)" by simp
    ultimately show ?thesis
      by (simp add: migrate_def del: createSchema.simps copyData.simps)
  qed
  have uniq: "TableName t \<notin> TableName ` set ([] @ [])"
    by simp
  from row_data_round_trip [OF mig snap uniq sch before cnt sel]
  have "rowsOf [TableName t] final =
      rowsOf [TableName t] [] @ map (Pair (map Name (Columns t))) (pending cursor)"
    by (rule conjunct1)
  then have rows: "rowsOf [''t''] final = [([''a''], [3]), ([''a''], [4])]"
    by (simp add: names cursor_def)
  have sql: \<open>selectSQL t = ''SELECT "a" FROM "t"''\<close>
    by (simp add: selectSQL_def escapedColNames_def t_def)
  from mig rows sql
  have \<open>migrate cat env [] = (None, final) \<and>
       rowsOf [''t''] final = [([''a''], [3]), ([''a''], [4])] \<and>
       selectSQL t = ''SELECT "a" FROM "t"''\<close>
    by (intro conjI)
  then show ?thesis
    unfolding final_def env_def cat_def t_def Let_def .
qed

end
